theory Spec2Isabelle
  imports Main
begin

section \<open>Python text primitives used by bio_files_processor.py\<close>

text \<open>
  Text is a list of characters, one \<^typ>\<open>char\<close> per code point below 256. The string
  methods below are the ones the source calls: \<^verbatim>\<open>startswith\<close>, \<^verbatim>\<open>endswith\<close>, \<^verbatim>\<open>in\<close>,
  \<^verbatim>\<open>strip\<close>, \<^verbatim>\<open>split\<close>, slicing and indexing.
\<close>

type_synonym path = string

datatype error =
    FileNotFoundError path
  | IsADirectoryError path
  | OSError path
  | FileExistsError path
  | UnsupportedOperation string
  | IndexError
  | KeyError string
  | ValueError string
  | ValueError_not_in_list string

definition startswith :: "string \<Rightarrow> string \<Rightarrow> bool" where
  "startswith s p = (take (length p) s = p)"

definition endswith :: "string \<Rightarrow> string \<Rightarrow> bool" where
  "endswith s p = (length p \<le> length s \<and> drop (length s - length p) s = p)"

text \<open>\<^verbatim>\<open>sub in s\<close>: some suffix of \<open>s\<close> starts with \<open>sub\<close>.\<close>

fun contains :: "string \<Rightarrow> string \<Rightarrow> bool" where
  "contains [] sub = (sub = [])"
| "contains (c # cs) sub = (startswith (c # cs) sub \<or> contains cs sub)"

text \<open>\<^verbatim>\<open>str.isspace\<close> on one code point below 256.\<close>

definition is_space :: "char \<Rightarrow> bool" where
  "is_space c = (c \<in> set [CHR 0x09, CHR 0x0A, CHR 0x0B, CHR 0x0C, CHR 0x0D,
                            CHR 0x1C, CHR 0x1D, CHR 0x1E, CHR 0x1F, CHR 0x20,
                            CHR 0x85, CHR 0xA0])"

definition strip :: "string \<Rightarrow> string" where
  "strip s = rev (dropWhile is_space (rev (dropWhile is_space s)))"

text \<open>\<^verbatim>\<open>s.strip(chars)\<close>.\<close>

definition strip_chars :: "string \<Rightarrow> string \<Rightarrow> string" where
  "strip_chars s chars =
     rev (dropWhile (\<lambda>c. c \<in> set chars) (rev (dropWhile (\<lambda>c. c \<in> set chars) s)))"

text \<open>\<^verbatim>\<open>s.split()\<close>: the maximal runs of non-whitespace characters.\<close>

fun split_ws_from :: "string \<Rightarrow> string \<Rightarrow> string list" where
  "split_ws_from cur [] = (if cur = [] then [] else [cur])"
| "split_ws_from cur (c # cs) =
     (if is_space c then (if cur = [] then split_ws_from [] cs else cur # split_ws_from [] cs)
      else split_ws_from (cur @ [c]) cs)"

definition split_ws :: "string \<Rightarrow> string list" where
  "split_ws s = split_ws_from [] s"

text \<open>
  \<^verbatim>\<open>s.split(sep)\<close> for a non-empty separator: scan from the left, cut at each occurrence
  of \<open>sep\<close> and go on after it. The source only passes the literals
  \<^verbatim>\<open>'"'\<close>, \<^verbatim>\<open>'    '\<close> and \<^verbatim>\<open>'.'\<close>.
\<close>

function split_from :: "string \<Rightarrow> string \<Rightarrow> string \<Rightarrow> string list" where
  "split_from sep cur [] = [cur]"
| "split_from sep cur (c # cs) =
     (if sep \<noteq> [] \<and> startswith (c # cs) sep
      then cur # split_from sep [] (drop (length sep) (c # cs))
      else split_from sep (cur @ [c]) cs)"
  by pat_completeness auto
termination
  by (relation "measure (\<lambda>(sep, cur, s). length s)") auto

definition split :: "string \<Rightarrow> string \<Rightarrow> string list" where
  "split s sep = split_from sep [] s"

text \<open>\<^verbatim>\<open>xs[i]\<close> for a literal index \<open>i \<ge> 0\<close>: IndexError out of range.\<close>

definition item :: "'a list \<Rightarrow> nat \<Rightarrow> error + 'a" where
  "item xs i = (if i < length xs then Inr (xs ! i) else Inl IndexError)"

text \<open>
  Slicing with integer bounds: a negative bound counts from the end, and both bounds are
  clipped to the list.
\<close>

definition slice_bound :: "nat \<Rightarrow> int \<Rightarrow> nat" where
  "slice_bound n i = (if i < 0 then nat (max 0 (int n + i)) else min n (nat i))"

definition slice_from :: "'a list \<Rightarrow> int \<Rightarrow> 'a list" where
  "slice_from xs i = drop (slice_bound (length xs) i) xs"

definition slice_to :: "'a list \<Rightarrow> int \<Rightarrow> 'a list" where
  "slice_to xs j = take (slice_bound (length xs) j) xs"

definition slice :: "'a list \<Rightarrow> int \<Rightarrow> int \<Rightarrow> 'a list" where
  "slice xs i j =
     take (slice_bound (length xs) j - slice_bound (length xs) i)
          (drop (slice_bound (length xs) i) xs)"

text \<open>\<^verbatim>\<open>xs.index(x)\<close>: the first position of \<open>x\<close>, when there is one.\<close>

fun list_index :: "'a list \<Rightarrow> 'a \<Rightarrow> nat option" where
  "list_index [] x = None"
| "list_index (y # ys) x =
     (if y = x then Some 0 else map_option Suc (list_index ys x))"

subsection \<open>Paths\<close>

text \<open>\<^verbatim>\<open>s.rfind('/') + 1\<close>: the length of the longest prefix that ends with a slash.\<close>

definition after_last_sep :: "string \<Rightarrow> nat" where
  "after_last_sep p = length p - length (takeWhile (\<lambda>c. c \<noteq> CHR ''/'') (rev p))"

definition basename :: "path \<Rightarrow> string" where
  "basename p = drop (after_last_sep p) p"

definition dirname :: "path \<Rightarrow> string" where
  "dirname p =
     (let head = take (after_last_sep p) p
      in if head \<noteq> [] \<and> head \<noteq> replicate (length head) CHR ''/''
         then rev (dropWhile (\<lambda>c. c = CHR ''/'') (rev head))
         else head)"

definition path_join :: "path \<Rightarrow> string \<Rightarrow> path" where
  "path_join a b =
     (if startswith b ''/'' then b
      else if a = [] \<or> endswith a ''/'' then a @ b
      else a @ ''/'' @ b)"

section \<open>Files\<close>

text \<open>
  The file system: the text of every existing file, the directories that exist, and for
  each path whether opening it for writing succeeds. A handle is a path with the mode it
  was opened in. Text written through a handle is appended to the file, so what was
  written before an exception stays in the file.
\<close>

record filesystem =
  files :: "path \<rightharpoonup> string"
  dirs :: "path set"
  writable :: "path \<Rightarrow> bool"

datatype mode = ReadMode | WriteMode

record handle =
  h_path :: path
  h_mode :: mode

definition file_text :: "filesystem \<Rightarrow> path \<Rightarrow> string" where
  "file_text fs p = (case files fs p of None \<Rightarrow> [] | Some t \<Rightarrow> t)"

text \<open>
  \<^verbatim>\<open>open(p)\<close> and \<^verbatim>\<open>open(p, 'r')\<close>: a path that holds a file is opened, a path that is
  a directory raises IsADirectoryError, and any other path raises FileNotFoundError.
\<close>

definition open_read :: "filesystem \<Rightarrow> path \<Rightarrow> error + handle" where
  "open_read fs p =
     (case files fs p of
        None \<Rightarrow> if p \<in> dirs fs then Inl (IsADirectoryError p) else Inl (FileNotFoundError p)
      | Some _ \<Rightarrow> Inr \<lparr>h_path = p, h_mode = ReadMode\<rparr>)"

text \<open>\<^verbatim>\<open>open(p, mode='w')\<close>: creates the file, or empties it.\<close>

definition open_write :: "filesystem \<Rightarrow> path \<Rightarrow> (error + handle) \<times> filesystem" where
  "open_write fs p =
     (if writable fs p
      then (Inr \<lparr>h_path = p, h_mode = WriteMode\<rparr>, fs\<lparr>files := (files fs)(p \<mapsto> [])\<rparr>)
      else (Inl (OSError p), fs))"

text \<open>\<^verbatim>\<open>f.write(data)\<close>: a handle opened for reading refuses every write.\<close>

definition fwrite :: "filesystem \<Rightarrow> handle \<Rightarrow> string \<Rightarrow> (error + unit) \<times> filesystem" where
  "fwrite fs h data =
     (case h_mode h of
        ReadMode \<Rightarrow> (Inl (UnsupportedOperation ''not writable''), fs)
      | WriteMode \<Rightarrow>
          (Inr (), fs\<lparr>files := (files fs)(h_path h \<mapsto> file_text fs (h_path h) @ data)\<rparr>))"

text \<open>
  Iterating a text file: \<^verbatim>\<open>\r\n\<close> and \<^verbatim>\<open>\r\<close> are read as \<^verbatim>\<open>\n\<close>, and every line
  keeps its \<^verbatim>\<open>\n\<close>; the last line has none when the file does not end with one.
\<close>

fun universal_newlines :: "string \<Rightarrow> string" where
  "universal_newlines [] = []"
| "universal_newlines (c # cs) =
     (if c = CHR 0x0D
      then (case cs of
              [] \<Rightarrow> [CHR 0x0A]
            | d # ds \<Rightarrow> if d = CHR 0x0A then CHR 0x0A # universal_newlines ds
                        else CHR 0x0A # universal_newlines cs)
      else c # universal_newlines cs)"

fun lines_from :: "string \<Rightarrow> string \<Rightarrow> string list" where
  "lines_from cur [] = (if cur = [] then [] else [cur])"
| "lines_from cur (c # cs) =
     (if c = CHR 0x0A then (cur @ [c]) # lines_from [] cs else lines_from (cur @ [c]) cs)"

definition read_lines :: "string \<Rightarrow> string list" where
  "read_lines text = lines_from [] (universal_newlines text)"

definition file_lines :: "filesystem \<Rightarrow> path \<Rightarrow> string list" where
  "file_lines fs p = read_lines (file_text fs p)"

section \<open>change_fasta_start_pos\<close>

text \<open>The expression \<^verbatim>\<open>f'{line[shift:]}{line[:shift]}'\<close> of the source.\<close>

definition rotate_line :: "string \<Rightarrow> int \<Rightarrow> string" where
  "rotate_line line shift = slice_from line shift @ slice_to line shift"


text \<open>\<^verbatim>\<open>str(n)\<close> inside an f-string: the decimal digits, with a minus sign when negative.\<close>

function str_nat :: "nat \<Rightarrow> string" where
  "str_nat n =
     (if n < 10 then [char_of (48 + n)] else str_nat (n div 10) @ [char_of (48 + n mod 10)])"
  by pat_completeness auto
termination
  by (relation "measure id") auto

definition str_int :: "int \<Rightarrow> string" where
  "str_int i = (if i < 0 then ''-'' @ str_nat (nat (- i)) else str_nat (nat i))"

definition shifted_output_name :: "path \<Rightarrow> int \<Rightarrow> string option \<Rightarrow> string" where
  "shifted_output_name input_fasta shift output_fasta =
     (let out = (case output_fasta of
                   None \<Rightarrow> ''shifted_by_'' @ str_int shift @ ''_nucleotide_'' @ basename input_fasta
                 | Some name \<Rightarrow> name)
      in if \<not> endswith out ''.fasta'' then out @ ''.fasta'' else out)"

fun shift_loop ::
  "filesystem \<Rightarrow> handle \<Rightarrow> int \<Rightarrow> string list \<Rightarrow> (error + unit) \<times> filesystem" where
  "shift_loop fs fout shift [] = (Inr (), fs)"
| "shift_loop fs fout shift (line # rest) =
     (case fwrite fs fout (if startswith line ''>'' then line @ ''\<newline>''
                           else rotate_line line shift) of
        (Inl e, fs1) \<Rightarrow> (Inl e, fs1)
      | (Inr _, fs1) \<Rightarrow> shift_loop fs1 fout shift rest)"

text \<open>
  Both files are opened before the first line is read, so the lines are those of the input
  after the output has been created or emptied.
\<close>

definition change_fasta_start_pos ::
  "filesystem \<Rightarrow> path \<Rightarrow> int \<Rightarrow> string option \<Rightarrow> (error + unit) \<times> filesystem" where
  "change_fasta_start_pos fs input_fasta shift output_fasta =
     (case open_read fs input_fasta of
        Inl e \<Rightarrow> (Inl e, fs)
      | Inr fin \<Rightarrow>
          (case open_write fs (shifted_output_name input_fasta shift output_fasta) of
             (Inl e, fs1) \<Rightarrow> (Inl e, fs1)
           | (Inr fout, fs1) \<Rightarrow> shift_loop fs1 fout shift (file_lines fs1 (h_path fin))))"

section \<open>convert_multiline_fasta_to_oneline\<close>

definition oneline_output_name :: "path \<Rightarrow> string option \<Rightarrow> string" where
  "oneline_output_name input_fasta output_fasta =
     (let out = (case output_fasta of
                   None \<Rightarrow> ''oneline_result_'' @ basename input_fasta
                 | Some name \<Rightarrow> name)
      in if \<not> endswith out ''.fasta'' then out @ ''.fasta'' else out)"

text \<open>
  The loop over the lines of the input, with the accumulator \<open>seq\<close>. On a line that is not
  a header the source assigns \<^verbatim>\<open>seq = f'{seq}\n'\<close>: the line itself is not used.
\<close>

fun oneline_loop ::
  "filesystem \<Rightarrow> handle \<Rightarrow> string \<Rightarrow> string list \<Rightarrow> (error + string) \<times> filesystem" where
  "oneline_loop fs fout seq [] = (Inr seq, fs)"
| "oneline_loop fs fout seq (line # rest) =
     (if startswith line ''>'' then
        (case (if seq \<noteq> [] then fwrite fs fout (seq @ ''\<newline>'') else (Inr (), fs)) of
           (Inl e, fs1) \<Rightarrow> (Inl e, fs1)
         | (Inr _, fs1) \<Rightarrow>
             (case fwrite fs1 fout line of
                (Inl e, fs2) \<Rightarrow> (Inl e, fs2)
              | (Inr _, fs2) \<Rightarrow> oneline_loop fs2 fout [] rest))
      else oneline_loop fs fout (seq @ ''\<newline>'') rest)"

text \<open>The body of the \<^verbatim>\<open>with\<close> statement, for the two handles it has opened.\<close>

definition oneline_body ::
  "filesystem \<Rightarrow> handle \<Rightarrow> handle \<Rightarrow> (error + unit) \<times> filesystem" where
  "oneline_body fs fin fout =
     (case oneline_loop fs fout [] (file_lines fs (h_path fin)) of
        (Inl e, fs1) \<Rightarrow> (Inl e, fs1)
      | (Inr seq, fs1) \<Rightarrow> fwrite fs1 fout seq)"

text \<open>The output is opened by \<^verbatim>\<open>open(os.path.join(path_to_out_dir, output_fasta))\<close>, with no mode.\<close>

definition convert_multiline_fasta_to_oneline ::
  "filesystem \<Rightarrow> path \<Rightarrow> string option \<Rightarrow> (error + unit) \<times> filesystem" where
  "convert_multiline_fasta_to_oneline fs input_fasta output_fasta =
     (let out = oneline_output_name input_fasta output_fasta;
          path_to_out_dir = dirname input_fasta
      in case open_read fs input_fasta of
           Inl e \<Rightarrow> (Inl e, fs)
         | Inr fin \<Rightarrow>
             (case open_read fs (path_join path_to_out_dir out) of
                Inl e \<Rightarrow> (Inl e, fs)
              | Inr fout \<Rightarrow> oneline_body fs fin fout))"

section \<open>parse_blast_output\<close>

record blast_state =
  query :: bool
  description :: bool
  best_blast_results :: "string list"

definition blast_step :: "blast_state \<Rightarrow> string \<Rightarrow> error + blast_state" where
  "blast_step s line =
     (if startswith line ''Query #'' then Inr (s\<lparr>query := True\<rparr>)
      else if query s \<and> startswith line ''Description  '' then Inr (s\<lparr>description := True\<rparr>)
      else if query s \<and> description s then
        (case item (split line ''    '') 0 of
           Inl e \<Rightarrow> Inl e
         | Inr current_result \<Rightarrow>
             Inr (s\<lparr>best_blast_results := best_blast_results s @ [current_result],
                    query := False, description := False\<rparr>))
      else Inr s)"

fun blast_scan :: "blast_state \<Rightarrow> string list \<Rightarrow> error + blast_state" where
  "blast_scan s [] = Inr s"
| "blast_scan s (line # rest) =
     (case blast_step s line of Inl e \<Rightarrow> Inl e | Inr s' \<Rightarrow> blast_scan s' rest)"

definition blast_init :: blast_state where
  "blast_init = \<lparr>query = False, description = False, best_blast_results = []\<rparr>"

definition blast_output_name :: "path \<Rightarrow> string option \<Rightarrow> error + string" where
  "blast_output_name input_file output_file =
     (case (case output_file of
              None \<Rightarrow> (case item (split (basename input_file) ''.'') 0 of
                         Inl e \<Rightarrow> Inl e
                       | Inr stem \<Rightarrow> Inr (''best_'' @ stem @ ''.txt''))
            | Some name \<Rightarrow> Inr name) of
        Inl e \<Rightarrow> Inl e
      | Inr out \<Rightarrow> Inr (if \<not> endswith out ''.txt'' then out @ ''.fasta'' else out))"

fun write_results ::
  "filesystem \<Rightarrow> handle \<Rightarrow> string list \<Rightarrow> (error + unit) \<times> filesystem" where
  "write_results fs fout [] = (Inr (), fs)"
| "write_results fs fout (d # rest) =
     (case fwrite fs fout (d @ ''\<newline>'') of
        (Inl e, fs1) \<Rightarrow> (Inl e, fs1)
      | (Inr _, fs1) \<Rightarrow> write_results fs1 fout rest)"

definition parse_blast_output ::
  "filesystem \<Rightarrow> path \<Rightarrow> string option \<Rightarrow> (error + unit) \<times> filesystem" where
  "parse_blast_output fs input_file output_file =
     (case open_read fs input_file of
        Inl e \<Rightarrow> (Inl e, fs)
      | Inr fin \<Rightarrow>
          (case blast_scan blast_init (file_lines fs (h_path fin)) of
             Inl e \<Rightarrow> (Inl e, fs)
           | Inr s \<Rightarrow>
               (case blast_output_name input_file output_file of
                  Inl e \<Rightarrow> (Inl e, fs)
                | Inr out \<Rightarrow>
                    (case open_write fs out of
                       (Inl e, fs1) \<Rightarrow> (Inl e, fs1)
                     | (Inr fout, fs1) \<Rightarrow> write_results fs1 fout (best_blast_results s)))))"


section \<open>select_genes_from_gbk_to_fasta\<close>

subsection \<open>The parsing pass\<close>

record gbk_state =
  cds_coord_list :: "string list"
  coord_cds_dict :: "string \<rightharpoonup> string \<times> string"
  genes_names_dict :: "string \<rightharpoonup> string"
  translation_seq :: "string list"
  record_translation :: bool
  gene_name :: string
  coord :: string

definition gbk_init :: gbk_state where
  "gbk_init =
     \<lparr>cds_coord_list = [], coord_cds_dict = Map.empty, genes_names_dict = Map.empty,
      translation_seq = [], record_translation = False, gene_name = [], coord = []\<rparr>"

text \<open>\<^verbatim>\<open>coord_cds_dict[coord] = (gene_name, "".join(translation_seq))\<close>\<close>

definition store_entry :: "gbk_state \<Rightarrow> gbk_state" where
  "store_entry s =
     s\<lparr>coord_cds_dict := (coord_cds_dict s)(coord s \<mapsto> (gene_name s, concat (translation_seq s)))\<rparr>"

text \<open>The first \<^verbatim>\<open>if\<close>/\<^verbatim>\<open>elif\<close> of the loop body: a CDS line, or a line with \<^verbatim>\<open>/gene\<close>.\<close>

definition feature_step :: "gbk_state \<Rightarrow> string \<Rightarrow> error + gbk_state" where
  "feature_step s line =
     (if startswith (strip line) ''CDS '' then
        (let s1 = (if coord s \<noteq> [] then (store_entry s)\<lparr>translation_seq := []\<rparr> else s)
         in case item (split_ws line) 1 of
              Inl e \<Rightarrow> Inl e
            | Inr c \<Rightarrow>
                Inr (s1\<lparr>coord := c, cds_coord_list := cds_coord_list s1 @ [c],
                        record_translation := False\<rparr>))
      else if contains line ''/gene'' then
        (case item (split line ''\"'') 1 of
           Inl e \<Rightarrow> Inl e
         | Inr g \<Rightarrow> Inr (s\<lparr>gene_name := g, genes_names_dict := (genes_names_dict s)(g \<mapsto> coord s)\<rparr>))
      else Inr s)"

text \<open>
  The second \<^verbatim>\<open>if\<close>/\<^verbatim>\<open>elif\<close>/\<^verbatim>\<open>elif\<close> of the loop body, in the order of the source:
  recording first, then \<^verbatim>\<open>/translation\<close>, then \<^verbatim>\<open>ORIGIN\<close>.
\<close>

definition translation_step :: "gbk_state \<Rightarrow> string \<Rightarrow> error + gbk_state" where
  "translation_step s line =
     (if record_translation s then
        Inr (s\<lparr>translation_seq := translation_seq s @ [strip_chars (strip line) ''\"'']\<rparr>)
      else if contains line ''/translation'' then
        (case item (split (strip line) ''\"'') 1 of
           Inl e \<Rightarrow> Inl e
         | Inr t \<Rightarrow> Inr (s\<lparr>record_translation := True, translation_seq := translation_seq s @ [t]\<rparr>))
      else if startswith (strip line) ''ORIGIN'' then
        Inr ((store_entry s)\<lparr>record_translation := False\<rparr>)
      else Inr s)"

definition gbk_step :: "gbk_state \<Rightarrow> string \<Rightarrow> error + gbk_state" where
  "gbk_step s line =
     (case feature_step s line of Inl e \<Rightarrow> Inl e | Inr s1 \<Rightarrow> translation_step s1 line)"

fun parse_gbk :: "gbk_state \<Rightarrow> string list \<Rightarrow> error + gbk_state" where
  "parse_gbk s [] = Inr s"
| "parse_gbk s (line # rest) =
     (case gbk_step s line of Inl e \<Rightarrow> Inl e | Inr s1 \<Rightarrow> parse_gbk s1 rest)"

subsection \<open>The selection loop\<close>

definition too_many_before :: string where
  "too_many_before =
     ''Too many neighbours CDSs before gene of interest are requested. Change number!''"

definition too_many_after :: string where
  "too_many_after =
     ''Too many neighbours CDSs after gene of interest are requested. Change number!''"

text \<open>One iteration of \<^verbatim>\<open>for gene in genes\<close>: the new value of \<^verbatim>\<open>cds_of_interest\<close>.\<close>

definition select_window :: "gbk_state \<Rightarrow> string \<Rightarrow> int \<Rightarrow> int \<Rightarrow> error + string list" where
  "select_window s gene n_before n_after =
     (case genes_names_dict s gene of
        None \<Rightarrow> Inl (KeyError gene)
      | Some gene_coord \<Rightarrow>
          (case list_index (cds_coord_list s) gene_coord of
             None \<Rightarrow> Inl (ValueError_not_in_list gene_coord)
           | Some gene_position \<Rightarrow>
               if int (length (slice_to (cds_coord_list s) (int gene_position))) < n_before
               then Inl (ValueError too_many_before)
               else if int (length (slice_from (cds_coord_list s) (int gene_position))) < n_after
               then Inl (ValueError too_many_after)
               else Inr (slice (cds_coord_list s) (int gene_position - n_before)
                               (int gene_position + n_after + 1))))"

fun select_loop ::
  "gbk_state \<Rightarrow> string list \<Rightarrow> int \<Rightarrow> int \<Rightarrow> string list \<Rightarrow> error + string list" where
  "select_loop s [] n_before n_after cds_of_interest = Inr cds_of_interest"
| "select_loop s (gene # rest) n_before n_after cds_of_interest =
     (case select_window s gene n_before n_after of
        Inl e \<Rightarrow> Inl e
      | Inr w \<Rightarrow> select_loop s rest n_before n_after w)"

subsection \<open>Writing the output\<close>

text \<open>\<^verbatim>\<open>os.makedirs(d, exist_ok=True)\<close>\<close>

definition makedirs :: "filesystem \<Rightarrow> path \<Rightarrow> (error + unit) \<times> filesystem" where
  "makedirs fs d =
     (if d \<in> dirs fs then (Inr (), fs)
      else if files fs d \<noteq> None then (Inl (FileExistsError d), fs)
      else if writable fs d then (Inr (), fs\<lparr>dirs := insert d (dirs fs)\<rparr>)
      else (Inl (OSError d), fs))"

definition gbk_output_name :: "path \<Rightarrow> string option \<Rightarrow> error + string" where
  "gbk_output_name input_gbk output_fasta =
     (case (case output_fasta of
              None \<Rightarrow> (case item (split (basename input_gbk) ''.'') 0 of
                         Inl e \<Rightarrow> Inl e
                       | Inr stem \<Rightarrow> Inr (''CDS_selected_from_gbk_'' @ stem))
            | Some name \<Rightarrow> Inr name) of
        Inl e \<Rightarrow> Inl e
      | Inr out \<Rightarrow> Inr (if \<not> endswith out ''.fasta'' then out @ ''.fasta'' else out))"

text \<open>
  \<^verbatim>\<open>fasta.write(f'>{cds} gene:{coord_cds_dict[cds][0]}\n{coord_cds_dict[cds][1]}\n')\<close>
  for each coordinate of the window; a coordinate that was never stored is a KeyError.
\<close>

fun write_cds ::
  "filesystem \<Rightarrow> handle \<Rightarrow> gbk_state \<Rightarrow> string list \<Rightarrow> (error + unit) \<times> filesystem" where
  "write_cds fs fasta s [] = (Inr (), fs)"
| "write_cds fs fasta s (cds # rest) =
     (case coord_cds_dict s cds of
        None \<Rightarrow> (Inl (KeyError cds), fs)
      | Some (name, translation) \<Rightarrow>
          (case fwrite fs fasta
                  (''>'' @ cds @ '' gene:'' @ name @ ''\<newline>'' @ translation @ ''\<newline>'') of
             (Inl e, fs1) \<Rightarrow> (Inl e, fs1)
           | (Inr _, fs1) \<Rightarrow> write_cds fs1 fasta s rest))"

text \<open>
  The whole function. The message printed at the end goes to the standard output, which
  is not part of the file system.
\<close>

definition select_genes_from_gbk_to_fasta ::
  "filesystem \<Rightarrow> path \<Rightarrow> string list \<Rightarrow> int \<Rightarrow> int \<Rightarrow> string option
     \<Rightarrow> (error + unit) \<times> filesystem" where
  "select_genes_from_gbk_to_fasta fs input_gbk genes n_before n_after output_fasta =
     (case open_read fs input_gbk of
        Inl e \<Rightarrow> (Inl e, fs)
      | Inr gbk \<Rightarrow>
          (case parse_gbk gbk_init (file_lines fs (h_path gbk)) of
             Inl e \<Rightarrow> (Inl e, fs)
           | Inr s \<Rightarrow>
               (case select_loop s genes n_before n_after [] of
                  Inl e \<Rightarrow> (Inl e, fs)
                | Inr cds_of_interest \<Rightarrow>
                    (case makedirs fs ''fasta_selected_from_gbk'' of
                       (Inl e, fs1) \<Rightarrow> (Inl e, fs1)
                     | (Inr _, fs1) \<Rightarrow>
                         (case gbk_output_name input_gbk output_fasta of
                            Inl e \<Rightarrow> (Inl e, fs1)
                          | Inr out \<Rightarrow>
                              (case open_write fs1 (path_join ''fasta_selected_from_gbk'' out) of
                                 (Inl e, fs2) \<Rightarrow> (Inl e, fs2)
                               | (Inr fasta, fs2) \<Rightarrow> write_cds fs2 fasta s cds_of_interest))))))"


section \<open>Notions used in the statements\<close>

text \<open>The content of \<open>s\<close> before its first occurrence of \<open>sep\<close>; all of \<open>s\<close> when there is none.\<close>

fun upto_first :: "string \<Rightarrow> string \<Rightarrow> string" where
  "upto_first sep [] = []"
| "upto_first sep (c # cs) = (if startswith (c # cs) sep then [] else c # upto_first sep cs)"

text \<open>
  A query block of a BLAST report: a line starting with \<^verbatim>\<open>Query #\<close>, a line starting with
  \<^verbatim>\<open>Description\<close> and two spaces, and one detail line. The detail line of a block that
  \<open>query_block\<close> accepts has a run of four spaces and starts like neither of the other two.
\<close>

definition block_lines :: "string \<times> string \<times> string \<Rightarrow> string list" where
  "block_lines b = (case b of (q, d, x) \<Rightarrow> [q, d, x])"

definition query_block :: "string \<times> string \<times> string \<Rightarrow> bool" where
  "query_block b = (case b of (q, d, x) \<Rightarrow>
      startswith q ''Query #'' \<and> startswith d ''Description  '' \<and>
      \<not> startswith x ''Query #'' \<and> \<not> startswith x ''Description  '' \<and>
      contains x ''    '')"

text \<open>A file system in which every path can be opened for writing.\<close>

definition all_writable :: "path \<Rightarrow> bool" where
  "all_writable p = True"

text \<open>The test of the source for a CDS line.\<close>

definition is_cds_line :: "string \<Rightarrow> bool" where
  "is_cds_line line = startswith (strip line) ''CDS ''"

text \<open>
  The invariant of the parsing pass: the current coordinate and every coordinate in the
  gene index is the empty string or an entry of the coordinate list.
\<close>

definition coords_listed :: "gbk_state \<Rightarrow> bool" where
  "coords_listed s =
     ((coord s = [] \<or> coord s \<in> set (cds_coord_list s)) \<and>
      (\<forall>g c. genes_names_dict s g = Some c \<longrightarrow> c = [] \<or> c \<in> set (cds_coord_list s)))"

section \<open>Example inputs\<close>

text \<open>
  A GenBank file with four CDS features, the first three with a \<^verbatim>\<open>/gene\<close> qualifier, and
  none with a translation; the file system that holds it as \<^verbatim>\<open>x.gbk\<close>; and the state in
  which the parsing pass leaves it.
\<close>

definition four_cds_text :: string where
  "four_cds_text =
     ''     CDS             1..9\<newline>                     /gene=\"a\"\<newline>     CDS             20..29\<newline>                     /gene=\"g\"\<newline>     CDS             40..49\<newline>                     /gene=\"h\"\<newline>     CDS             60..69\<newline>ORIGIN\<newline>''"

definition four_cds_fs :: filesystem where
  "four_cds_fs = \<lparr>files = [''x.gbk'' \<mapsto> four_cds_text], dirs = {}, writable = all_writable\<rparr>"

definition four_cds_state :: gbk_state where
  "four_cds_state =
     \<lparr>cds_coord_list = [''1..9'', ''20..29'', ''40..49'', ''60..69''],
      coord_cds_dict = [''1..9'' \<mapsto> (''a'', ''''), ''20..29'' \<mapsto> (''g'', ''''),
                        ''40..49'' \<mapsto> (''h'', ''''), ''60..69'' \<mapsto> (''h'', '''')],
      genes_names_dict = [''a'' \<mapsto> ''1..9'', ''g'' \<mapsto> ''20..29'', ''h'' \<mapsto> ''40..49''],
      translation_seq = [], record_translation = False, gene_name = ''h'', coord = ''60..69''\<rparr>"

text \<open>A GenBank file that ends after one CDS feature, with no \<^verbatim>\<open>ORIGIN\<close> line.\<close>

definition no_origin_fs :: filesystem where
  "no_origin_fs =
     \<lparr>files = [''x.gbk'' \<mapsto> ''     CDS             1..9\<newline>                     /gene=\"a\"\<newline>''],
      dirs = {}, writable = all_writable\<rparr>"

section \<open>Facts about the text primitives\<close>

lemmas text_defs =
  startswith_def strip_def is_space_def split_ws_def split_def item_def strip_chars_def

lemmas path_defs =
  path_join_def dirname_def basename_def after_last_sep_def endswith_def startswith_def

lemma startswith_iff: "startswith s p \<longleftrightarrow> (\<exists>q. s = p @ q)"
  by (metis append_eq_conv_conj startswith_def)

lemma endswith_iff: "endswith s p \<longleftrightarrow> (\<exists>q. s = q @ p)"
proof
  assume "endswith s p"
  then have "s = take (length s - length p) s @ p"
    by (metis append_take_drop_id endswith_def)
  then show "\<exists>q. s = q @ p" ..
next
  assume "\<exists>q. s = q @ p"
  then show "endswith s p" by (auto simp: endswith_def)
qed

text \<open>The first field of \<^verbatim>\<open>s.split(sep)\<close> is the content of \<open>s\<close> before the first \<open>sep\<close>.\<close>

lemma split_from_first:
  "sep \<noteq> [] \<Longrightarrow> \<exists>rest. split_from sep cur s = (cur @ upto_first sep s) # rest"
  by (induction sep cur s rule: split_from.induct) auto

lemma item_split_0:
  assumes "sep \<noteq> []"
  shows "item (split s sep) 0 = Inr (upto_first sep s)"
proof -
  obtain rest where "split_from sep [] s = upto_first sep s # rest"
    using split_from_first [OF assms, of "[]" s] by auto
  then show ?thesis by (simp add: item_def split_def)
qed

lemma upto_first_split: "contains x sep \<Longrightarrow> \<exists>r. x = upto_first sep x @ sep @ r"
proof (induction x)
  case Nil
  then show ?case by simp
next
  case (Cons c cs)
  show ?case
  proof (cases "startswith (c # cs) sep")
    case True
    then show ?thesis by (simp add: startswith_iff)
  next
    case False
    then obtain r where r: "cs = upto_first sep cs @ sep @ r"
      using Cons by auto
    have "upto_first sep (c # cs) = c # upto_first sep cs"
      using False by simp
    then have "c # cs = upto_first sep (c # cs) @ sep @ r"
      using r by (metis append_Cons)
    then show ?thesis ..
  qed
qed

lemma upto_first_in_butlast:
  assumes "contains x sep" and "sep \<noteq> []"
  shows "set (upto_first sep x) \<subseteq> set (butlast x)"
proof -
  obtain r where "x = upto_first sep x @ sep @ r"
    using upto_first_split [OF assms(1)] ..
  then have "butlast x = upto_first sep x @ butlast (sep @ r)"
    using assms(2) by (metis append_is_Nil_conv butlast_append)
  then show ?thesis by auto
qed

subsection \<open>Lines of a text\<close>

lemma universal_newlines_no_cr: "CHR 0x0D \<notin> set (universal_newlines t)"
  by (induction t rule: universal_newlines.induct) (auto split: list.splits)

lemma universal_newlines_id: "CHR 0x0D \<notin> set t \<Longrightarrow> universal_newlines t = t"
  by (induction t) auto

lemma lines_from_chars: "l \<in> set (lines_from cur t) \<Longrightarrow> set l \<subseteq> set cur \<union> set t"
  by (induction t arbitrary: cur) (fastforce split: if_splits)+

lemma lines_from_newline:
  "CHR 0x0A \<notin> set cur \<Longrightarrow> l \<in> set (lines_from cur t) \<Longrightarrow> CHR 0x0A \<notin> set (butlast l)"
proof (induction t arbitrary: cur)
  case Nil
  then show ?case by (auto split: if_splits dest: in_set_butlastD)
next
  case (Cons c t)
  show ?case
  proof (cases "c = CHR 0x0A")
    case True
    then have "l = cur @ [c] \<or> l \<in> set (lines_from [] t)"
      using Cons.prems(2) by simp
    then show ?thesis
      using Cons.prems(1) Cons.IH [of "[]"] by auto
  next
    case False
    then have "l \<in> set (lines_from (cur @ [c]) t)"
      using Cons.prems(2) by simp
    then show ?thesis
      using False Cons.prems(1) Cons.IH [of "cur @ [c]"] by simp
  qed
qed

lemma lines_from_line:
  "CHR 0x0A \<notin> set l \<Longrightarrow>
   lines_from cur (l @ CHR 0x0A # rest) = (cur @ l @ [CHR 0x0A]) # lines_from [] rest"
  by (induction l arbitrary: cur) auto

lemma lines_from_concat:
  "\<forall>l \<in> set ls. CHR 0x0A \<notin> set l \<Longrightarrow>
   lines_from [] (concat (map (\<lambda>l. l @ [CHR 0x0A]) ls)) = map (\<lambda>l. l @ [CHR 0x0A]) ls"
  by (induction ls) (simp_all add: lines_from_line)

text \<open>Reading back a text written one line at a time gives those lines.\<close>

lemma read_lines_concat:
  assumes "\<forall>l \<in> set ls. CHR 0x0A \<notin> set l \<and> CHR 0x0D \<notin> set l"
  shows "read_lines (concat (map (\<lambda>l. l @ ''\<newline>'') ls)) = map (\<lambda>l. l @ ''\<newline>'') ls"
proof -
  have "CHR 0x0D \<notin> set (concat (map (\<lambda>l. l @ [CHR 0x0A]) ls))"
    using assms by auto
  then show ?thesis
    using assms by (simp add: read_lines_def universal_newlines_id lines_from_concat)
qed

text \<open>A line that was read has no carriage return, and a newline only at its end.\<close>

lemma read_lines_line:
  assumes "l \<in> set (read_lines t)"
  shows "CHR 0x0A \<notin> set (butlast l)" and "CHR 0x0D \<notin> set l"
proof -
  show "CHR 0x0A \<notin> set (butlast l)"
    using assms lines_from_newline [of "[]" l] by (simp add: read_lines_def)
  show "CHR 0x0D \<notin> set l"
    using assms lines_from_chars [of l "[]" "universal_newlines t"] universal_newlines_no_cr [of t]
    by (auto simp: read_lines_def)
qed

section \<open>Properties of the rotation\<close>

lemma rotate_line_nat:
  "k \<le> length line \<Longrightarrow> rotate_line line (int k) = drop k line @ take k line"
  by (simp add: rotate_line_def slice_from_def slice_to_def slice_bound_def)

text \<open>
  Claim C5. A line is what the loop of \<open>change_fasta_start_pos\<close> reads: the characters
  of the line with its newline, so never empty, and its length counts the newline.
  For every such line and every shift from 0 to the length of the line, rotating
  by \<open>shift\<close> and then rotating the result by the length minus \<open>shift\<close>, taken modulo the
  length, gives the line back.
\<close>

theorem rotate_line_roundtrip:
  assumes "0 \<le> shift" and "shift \<le> int (length line)" and "line \<noteq> []"
  shows "rotate_line (rotate_line line shift)
           ((int (length line) - shift) mod int (length line)) = line"
proof -
  define k where "k = nat shift"
  have k: "shift = int k" "k \<le> length line"
    using assms by (simp_all add: k_def)
  have first: "rotate_line line shift = drop k line @ take k line"
    using k by (simp add: rotate_line_nat)
  show ?thesis
  proof (cases "k = 0 \<or> k = length line")
    case True
    then have "(int (length line) - shift) mod int (length line) = 0"
      using k by auto
    moreover have "rotate_line line shift = line"
      using True first by auto
    ultimately show ?thesis
      using rotate_line_nat [of 0 line] by simp
  next
    case False
    then have lt: "0 < k" "k < length line"
      using k by auto
    have "(int (length line) - shift) mod int (length line) = int (length line - k)"
    proof -
      have "0 \<le> int (length line) - shift" "int (length line) - shift < int (length line)"
        using k lt by simp_all
      then have "(int (length line) - shift) mod int (length line) = int (length line) - shift"
        by (rule mod_pos_pos_trivial)
      then show ?thesis using k by simp
    qed
    moreover have "rotate_line (drop k line @ take k line) (int (length line - k))
                     = take k line @ drop k line"
      using lt rotate_line_nat [of "length line - k" "drop k line @ take k line"] by simp
    ultimately show ?thesis
      using first by simp
  qed
qed

theorem rotate_line_roundtrip_witness:
  "rotate_line ''ACGT\<newline>'' 2 = ''GT\<newline>AC'' \<and>
   rotate_line (rotate_line ''ACGT\<newline>'' 2)
     ((int (length ''ACGT\<newline>'') - 2) mod int (length ''ACGT\<newline>'')) = ''ACGT\<newline>''"
  using rotate_line_roundtrip [of 2 "''ACGT\<newline>''"]
  by (simp add: rotate_line_def slice_from_def slice_to_def slice_bound_def)
section \<open>Properties of convert_multiline_fasta_to_oneline\<close>




text \<open>
  Claim C1, on the example of the specification: the input \<^verbatim>\<open>>seq1\nACGT\nTTTT\n\<close>
  should be flattened to \<^verbatim>\<open>>seq1\nACGTTTTT\n\<close>. With the output file already there, the
  function raises \<^verbatim>\<open>not writable\<close> and writes nothing. Run with an output handle that
  accepts writes, the body of the function writes \<^verbatim>\<open>>seq1\n\n\n\<close>: the header and one
  newline for each sequence line, since the accumulator never receives the line.
\<close>

theorem convert_multiline_fasta_to_oneline_example:
  "fst (convert_multiline_fasta_to_oneline
          \<lparr>files = [''in.fasta'' \<mapsto> ''>seq1\<newline>ACGT\<newline>TTTT\<newline>'',
                    ''oneline_result_in.fasta'' \<mapsto> ''''],
           dirs = {}, writable = all_writable\<rparr>
          ''in.fasta'' None)
     = Inl (UnsupportedOperation ''not writable'')
   \<and>
   file_text (snd (oneline_body
          \<lparr>files = [''in.fasta'' \<mapsto> ''>seq1\<newline>ACGT\<newline>TTTT\<newline>'',
                    ''oneline_result_in.fasta'' \<mapsto> ''''],
           dirs = {}, writable = all_writable\<rparr>
          \<lparr>h_path = ''in.fasta'', h_mode = ReadMode\<rparr>
          \<lparr>h_path = ''oneline_result_in.fasta'', h_mode = WriteMode\<rparr>))
        ''oneline_result_in.fasta''
     = ''>seq1\<newline>\<newline>\<newline>''"
  by (simp add: convert_multiline_fasta_to_oneline_def oneline_body_def path_defs
      oneline_output_name_def Let_def open_read_def fwrite_def file_lines_def read_lines_def
      file_text_def)




section \<open>Properties of parse_blast_output\<close>

text \<open>
  Claim C9. With no output name the name is \<^verbatim>\<open>best_\<close>, the base name of the input up to
  its first dot, and \<^verbatim>\<open>.txt\<close>. A given output name that does not end with \<^verbatim>\<open>.txt\<close>
  gets \<^verbatim>\<open>.fasta\<close> appended, not \<^verbatim>\<open>.txt\<close>.
\<close>

theorem blast_output_name_suffix:
  "blast_output_name input_file None
     = Inr (''best_'' @ upto_first ''.'' (basename input_file) @ ''.txt'')
   \<and> (\<not> endswith name ''.txt'' \<longrightarrow>
        blast_output_name input_file (Some name) = Inr (name @ ''.fasta''))"
  by (simp add: blast_output_name_def item_split_0 endswith_def)

theorem blast_output_name_suffix_witness:
  "blast_output_name ''runs/report.v2.txt'' None = Inr ''best_report.txt''
   \<and> \<not> endswith ''hits'' ''.txt''
   \<and> blast_output_name ''runs/report.v2.txt'' (Some ''hits'') = Inr ''hits.fasta''"
  using blast_output_name_suffix [of "''runs/report.v2.txt''" "''hits''"]
  by (simp add: basename_def after_last_sep_def endswith_def startswith_def)

subsection \<open>The scan over query blocks\<close>

lemma startswith_distinct:
  "startswith d ''Description  '' \<Longrightarrow> \<not> startswith d ''Query #''"
  by (cases d) (auto simp: startswith_def)

lemma blast_block:
  assumes "\<not> query s" "\<not> description s"
    and "startswith q ''Query #''" "startswith d ''Description  ''"
    and "\<not> startswith x ''Query #''" "\<not> startswith x ''Description  ''"
  shows "blast_scan s (q # d # x # rest) =
         blast_scan (s\<lparr>best_blast_results := best_blast_results s @ [upto_first ''    '' x]\<rparr>) rest"
proof -
  have q: "blast_step s q = Inr (s\<lparr>query := True\<rparr>)"
    using assms(3) by (simp add: blast_step_def)
  have d: "blast_step (s\<lparr>query := True\<rparr>) d = Inr (s\<lparr>query := True, description := True\<rparr>)"
    using assms(4) startswith_distinct [OF assms(4)] by (simp add: blast_step_def)
  have "blast_step (s\<lparr>query := True, description := True\<rparr>) x =
          Inr (s\<lparr>query := True, description := True,
                 best_blast_results := best_blast_results s @ [upto_first ''    '' x],
                 query := False, description := False\<rparr>)"
    using assms(5,6) by (simp add: blast_step_def item_split_0)
  moreover have "s\<lparr>query := True, description := True,
                 best_blast_results := best_blast_results s @ [upto_first ''    '' x],
                 query := False, description := False\<rparr>
        = s\<lparr>best_blast_results := best_blast_results s @ [upto_first ''    '' x]\<rparr>"
    using assms(1,2) by simp
  ultimately show ?thesis
    using q d by simp
qed

lemma blast_scan_blocks:
  assumes "\<forall>b \<in> set blocks. query_block b"
    and "\<not> query s" "\<not> description s"
  shows "blast_scan s (concat (map block_lines blocks)) =
         Inr (s\<lparr>best_blast_results :=
                  best_blast_results s @ map (\<lambda>(q, d, x). upto_first ''    '' x) blocks\<rparr>)"
  using assms
proof (induction blocks arbitrary: s)
  case Nil
  then show ?case by simp
next
  case (Cons b blocks)
  obtain q d x where b: "b = (q, d, x)" by (cases b)
  have wf: "startswith q ''Query #''" "startswith d ''Description  ''"
       "\<not> startswith x ''Query #''" "\<not> startswith x ''Description  ''"
    using Cons.prems(1) by (simp_all add: b query_block_def)
  let ?s = "s\<lparr>best_blast_results := best_blast_results s @ [upto_first ''    '' x]\<rparr>"
  have "blast_scan s (concat (map block_lines (b # blocks))) =
        blast_scan ?s (concat (map block_lines blocks))"
    using blast_block [OF Cons.prems(2,3) wf] by (simp add: b block_lines_def)
  also have "\<dots> = Inr (?s\<lparr>best_blast_results :=
                  best_blast_results ?s @ map (\<lambda>(q, d, x). upto_first ''    '' x) blocks\<rparr>)"
    using Cons.prems by (intro Cons.IH) simp_all
  finally show ?case by (simp add: b)
qed

lemma write_results_write_mode:
  "write_results fs \<lparr>h_path = p, h_mode = WriteMode\<rparr> ds =
     (Inr (), if ds = [] then fs
              else fs\<lparr>files := (files fs)(p \<mapsto>
                         file_text fs p @ concat (map (\<lambda>d. d @ ''\<newline>'') ds))\<rparr>)"
proof (induction ds arbitrary: fs)
  case Nil
  then show ?case by simp
next
  case (Cons d ds)
  then show ?case by (simp add: fwrite_def file_text_def)
qed

text \<open>
  Claim C8, amended. The report is made of K query blocks, and every detail line has a
  run of four spaces and starts with neither \<^verbatim>\<open>Query #\<close> nor \<^verbatim>\<open>Description\<close> and two
  spaces. When the output path can be opened for writing, \<open>parse_blast_output\<close> returns
  and the output file holds exactly K lines, the i-th being the content of the i-th detail
  line before its first run of four spaces: one capture for each block.
\<close>

theorem parse_blast_output_blocks:
  assumes "files fs input_file = Some text"
    and "read_lines text = concat (map block_lines blocks)"
    and "\<forall>b \<in> set blocks. query_block b"
    and "blast_output_name input_file output_file = Inr out"
    and "writable fs out"
  shows "parse_blast_output fs input_file output_file =
           (Inr (), fs\<lparr>files := (files fs)(out \<mapsto>
                        concat (map (\<lambda>(q, d, x). upto_first ''    '' x @ ''\<newline>'') blocks))\<rparr>)
         \<and> read_lines (concat (map (\<lambda>(q, d, x). upto_first ''    '' x @ ''\<newline>'') blocks))
             = map (\<lambda>(q, d, x). upto_first ''    '' x @ ''\<newline>'') blocks"
proof
  let ?results = "map (\<lambda>(q, d, x). upto_first ''    '' x) blocks"
  have scan: "blast_scan blast_init (file_lines fs input_file) =
                Inr (blast_init\<lparr>best_blast_results := ?results\<rparr>)"
    using blast_scan_blocks [OF assms(3), of blast_init] assms(1,2)
    by (simp add: file_lines_def file_text_def blast_init_def)
  have lines: "concat (map (\<lambda>d. d @ ''\<newline>'') ?results)
                 = concat (map (\<lambda>(q, d, x). upto_first ''    '' x @ ''\<newline>'') blocks)"
    by (simp add: map_concat comp_def case_prod_unfold)
  show "parse_blast_output fs input_file output_file =
           (Inr (), fs\<lparr>files := (files fs)(out \<mapsto>
                        concat (map (\<lambda>(q, d, x). upto_first ''    '' x @ ''\<newline>'') blocks))\<rparr>)"
    using assms(1,4,5) scan lines
    by (simp add: parse_blast_output_def open_read_def open_write_def
        write_results_write_mode file_text_def)
  have "\<forall>l \<in> set ?results. CHR 0x0A \<notin> set l \<and> CHR 0x0D \<notin> set l"
  proof
    fix l assume "l \<in> set ?results"
    then obtain q d x where b: "(q, d, x) \<in> set blocks" and l: "l = upto_first ''    '' x"
      by auto
    have x: "x \<in> set (read_lines text)"
      using b assms(2) by (force simp: block_lines_def)
    have "query_block (q, d, x)"
      using b assms(3) by blast
    then have "contains x ''    ''"
      by (simp add: query_block_def)
    then have sub: "set l \<subseteq> set (butlast x)"
      unfolding l by (rule upto_first_in_butlast) simp
    show "CHR 0x0A \<notin> set l \<and> CHR 0x0D \<notin> set l"
      using sub read_lines_line [OF x] by (auto dest: in_set_butlastD)
  qed
  then have "read_lines (concat (map (\<lambda>l. l @ ''\<newline>'') ?results))
               = map (\<lambda>l. l @ ''\<newline>'') ?results"
    by (rule read_lines_concat)
  then show "read_lines (concat (map (\<lambda>(q, d, x). upto_first ''    '' x @ ''\<newline>'') blocks))
             = map (\<lambda>(q, d, x). upto_first ''    '' x @ ''\<newline>'') blocks"
    using lines by (simp add: comp_def case_prod_unfold)
qed

theorem parse_blast_output_blocks_witness:
  "parse_blast_output
     \<lparr>files = [''report.txt'' \<mapsto>
        ''Query #1: seqA\<newline>Description    Scientific Name\<newline>hit one [E. coli]    E. coli   99\<newline>Query #2: seqB\<newline>Description  Name\<newline>other hit    x\<newline>''],
      dirs = {}, writable = all_writable\<rparr> ''report.txt'' None
   = (Inr (),
      \<lparr>files = [''report.txt'' \<mapsto>
        ''Query #1: seqA\<newline>Description    Scientific Name\<newline>hit one [E. coli]    E. coli   99\<newline>Query #2: seqB\<newline>Description  Name\<newline>other hit    x\<newline>'',
        ''best_report.txt'' \<mapsto> ''hit one [E. coli]\<newline>other hit\<newline>''],
      dirs = {}, writable = all_writable\<rparr>)
   \<and> read_lines ''hit one [E. coli]\<newline>other hit\<newline>''
       = [''hit one [E. coli]\<newline>'', ''other hit\<newline>'']"
proof -
  let ?text = "''Query #1: seqA\<newline>Description    Scientific Name\<newline>hit one [E. coli]    E. coli   99\<newline>Query #2: seqB\<newline>Description  Name\<newline>other hit    x\<newline>''"
  let ?fs = "\<lparr>files = [''report.txt'' \<mapsto> ?text], dirs = {}, writable = all_writable\<rparr>"
  let ?blocks =
    "[(''Query #1: seqA\<newline>'', ''Description    Scientific Name\<newline>'',
       ''hit one [E. coli]    E. coli   99\<newline>''),
      (''Query #2: seqB\<newline>'', ''Description  Name\<newline>'', ''other hit    x\<newline>'')]"
  have h1: "files ?fs ''report.txt'' = Some ?text" by simp
  have h2: "read_lines ?text = concat (map block_lines ?blocks)"
    by (simp add: read_lines_def block_lines_def)
  have h3: "\<forall>b \<in> set ?blocks. query_block b"
    by (simp add: query_block_def startswith_def)
  have h4: "blast_output_name ''report.txt'' None = Inr ''best_report.txt''"
    by (simp add: blast_output_name_def item_split_0 basename_def after_last_sep_def
        endswith_def startswith_def)
  have h5: "writable ?fs ''best_report.txt''" by (simp add: all_writable_def)
  show ?thesis
    using parse_blast_output_blocks [OF h1 h2 h3 h4 h5] by (simp add: startswith_def)
qed

text \<open>
  Claim C8 as stated fails on a report of one block. With the detail line \<^verbatim>\<open>hit\<close>, which
  has no run of four spaces, the captured text keeps the newline of the line and the output
  has two lines, the second empty. With a detail line that starts with \<^verbatim>\<open>Query #\<close>
  nothing is captured and the output is empty.
\<close>

theorem parse_blast_output_counterexample:
  "file_text (snd (parse_blast_output
      \<lparr>files = [''r.txt'' \<mapsto> ''Query #1\<newline>Description  d\<newline>hit\<newline>''],
       dirs = {}, writable = all_writable\<rparr> ''r.txt'' None)) ''best_r.txt'' = ''hit\<newline>\<newline>''
   \<and> read_lines ''hit\<newline>\<newline>'' = [''hit\<newline>'', ''\<newline>'']
   \<and> file_text (snd (parse_blast_output
      \<lparr>files = [''r.txt'' \<mapsto> ''Query #1\<newline>Description  d\<newline>Query #2    x\<newline>''],
       dirs = {}, writable = all_writable\<rparr> ''r.txt'' None)) ''best_r.txt'' = ''''"
  by (simp add: parse_blast_output_def open_read_def open_write_def file_lines_def file_text_def
      read_lines_def blast_init_def blast_step_def blast_output_name_def item_split_0
      basename_def after_last_sep_def endswith_def startswith_def all_writable_def
      fwrite_def)

section \<open>Properties of the parsing pass of select_genes_from_gbk_to_fasta\<close>

lemma feature_step_length:
  "feature_step s line = Inr s' \<Longrightarrow>
   length (cds_coord_list s') = length (cds_coord_list s) + (if is_cds_line line then 1 else 0)"
  by (auto simp: feature_step_def is_cds_line_def store_entry_def Let_def
      split: if_splits sum.splits)

lemma feature_step_listed:
  "feature_step s line = Inr s' \<Longrightarrow> coords_listed s \<Longrightarrow> coords_listed s'"
  by (auto simp: feature_step_def coords_listed_def store_entry_def Let_def
      split: if_splits sum.splits) blast+

lemma translation_step_same:
  "translation_step s line = Inr s' \<Longrightarrow>
   cds_coord_list s' = cds_coord_list s \<and> genes_names_dict s' = genes_names_dict s
   \<and> coord s' = coord s"
  by (auto simp: translation_step_def store_entry_def split: if_splits sum.splits)

lemma gbk_step_length:
  "gbk_step s line = Inr s' \<Longrightarrow>
   length (cds_coord_list s') = length (cds_coord_list s) + (if is_cds_line line then 1 else 0)"
  by (auto simp: gbk_step_def split: sum.splits dest!: feature_step_length translation_step_same)

lemma gbk_step_listed:
  assumes "gbk_step s line = Inr s'" and "coords_listed s"
  shows "coords_listed s'"
proof -
  obtain s1 where f: "feature_step s line = Inr s1" and t: "translation_step s1 line = Inr s'"
    using assms(1) by (auto simp: gbk_step_def split: sum.splits)
  have "coords_listed s1" using f assms(2) by (rule feature_step_listed)
  then show "coords_listed s'"
    using translation_step_same [OF t] by (simp add: coords_listed_def)
qed

lemma parse_gbk_length:
  "parse_gbk s lines = Inr s' \<Longrightarrow>
   length (cds_coord_list s') = length (cds_coord_list s) + length (filter is_cds_line lines)"
proof (induction lines arbitrary: s)
  case Nil
  then show ?case by simp
next
  case (Cons line lines)
  then obtain s1 where s1: "gbk_step s line = Inr s1" and rest: "parse_gbk s1 lines = Inr s'"
    by (auto split: sum.splits)
  show ?case
    using gbk_step_length [OF s1] Cons.IH [OF rest] by simp
qed

lemma parse_gbk_listed:
  "parse_gbk s lines = Inr s' \<Longrightarrow> coords_listed s \<Longrightarrow> coords_listed s'"
proof (induction lines arbitrary: s)
  case Nil
  then show ?case by simp
next
  case (Cons line lines)
  then obtain s1 where s1: "gbk_step s line = Inr s1" and rest: "parse_gbk s1 lines = Inr s'"
    by (auto split: sum.splits)
  show ?case
    using Cons.IH [OF rest] gbk_step_listed [OF s1 Cons.prems(2)] by simp
qed

text \<open>
  Claim C6, amended. After a parsing pass that returns, the coordinate list has as many
  entries as the input has lines whose trimmed content starts with \<^verbatim>\<open>CDS\<close> and a space,
  and every gene name of the gene index maps to an entry of that list or to the empty
  string, the value of \<^verbatim>\<open>coord\<close> before the first CDS line.
\<close>

theorem parse_gbk_coordinates:
  assumes "parse_gbk gbk_init lines = Inr s"
  shows "length (cds_coord_list s)
           = length (filter (\<lambda>line. startswith (strip line) ''CDS '') lines)
         \<and> (\<forall>g c. genes_names_dict s g = Some c \<longrightarrow> c = [] \<or> c \<in> set (cds_coord_list s))"
proof -
  have "coords_listed gbk_init"
    by (simp add: coords_listed_def gbk_init_def)
  then have "coords_listed s"
    using parse_gbk_listed [OF assms] by simp
  moreover have "is_cds_line = (\<lambda>line. startswith (strip line) ''CDS '')"
    by (auto simp: is_cds_line_def)
  ultimately show ?thesis
    using parse_gbk_length [OF assms] by (simp add: coords_listed_def gbk_init_def)
qed

lemma parse_gbk_gene_before_cds:
  "parse_gbk gbk_init
     [''     gene            1..5\<newline>'', ''                     /gene=\"x\"\<newline>'',
      ''     CDS             7..9\<newline>'', ''                     /gene=\"y\"\<newline>'']
   = Inr \<lparr>cds_coord_list = [''7..9''], coord_cds_dict = Map.empty,
          genes_names_dict = [''x'' \<mapsto> '''', ''y'' \<mapsto> ''7..9''],
          translation_seq = [], record_translation = False, gene_name = ''y'', coord = ''7..9''\<rparr>"
  by (simp add: gbk_step_def feature_step_def translation_step_def gbk_init_def text_defs)

theorem parse_gbk_coordinates_witness:
  "length [''7..9''] = length (filter (\<lambda>line. startswith (strip line) ''CDS '')
      [''     gene            1..5\<newline>'', ''                     /gene=\"x\"\<newline>'',
       ''     CDS             7..9\<newline>'', ''                     /gene=\"y\"\<newline>''])
   \<and> [''x'' \<mapsto> '''', ''y'' \<mapsto> ''7..9''] ''y'' = Some ''7..9'' \<and> ''7..9'' \<in> set [''7..9'']
   \<and> [''x'' \<mapsto> '''', ''y'' \<mapsto> ''7..9''] ''x'' = Some ''''"
  using parse_gbk_coordinates [OF parse_gbk_gene_before_cds] by simp

text \<open>
  Claim C6 as stated fails when a \<^verbatim>\<open>/gene\<close> line comes before any CDS line: the parse
  returns, the gene \<^verbatim>\<open>x\<close> is mapped to the empty string, and the coordinate list is empty.
\<close>

theorem parse_gbk_gene_index_counterexample:
  "\<not> isl (parse_gbk gbk_init
        [''     gene            1..5\<newline>'', ''                     /gene=\"x\"\<newline>''])
   \<and> genes_names_dict (projr (parse_gbk gbk_init
        [''     gene            1..5\<newline>'', ''                     /gene=\"x\"\<newline>''])) ''x''
       = Some ''''
   \<and> cds_coord_list (projr (parse_gbk gbk_init
        [''     gene            1..5\<newline>'', ''                     /gene=\"x\"\<newline>''])) = []"
  by (simp add: gbk_step_def feature_step_def translation_step_def gbk_init_def text_defs)

text \<open>
  Claim C4, on a file whose last CDS has a translation. The \<^verbatim>\<open>ORIGIN\<close> line arrives
  while the recording flag is set, so the first branch of the chain takes it: the line is
  appended to the translation, the flag stays set, and the entry of the last coordinate
  \<^verbatim>\<open>1..9\<close> is never stored in the lookup.
\<close>

theorem parse_gbk_origin_while_recording:
  "parse_gbk gbk_init
     [''     CDS             1..9\<newline>'', ''                     /gene=\"a\"\<newline>'',
      ''                     /translation=\"MK\"\<newline>'', ''ORIGIN\<newline>'']
   = Inr \<lparr>cds_coord_list = [''1..9''], coord_cds_dict = Map.empty,
          genes_names_dict = [''a'' \<mapsto> ''1..9''],
          translation_seq = [''MK'', ''ORIGIN''], record_translation = True,
          gene_name = ''a'', coord = ''1..9''\<rparr>"
  by (simp add: gbk_step_def feature_step_def translation_step_def gbk_init_def store_entry_def
      text_defs)

section \<open>Properties of the selection loop\<close>

lemmas select_defs = select_window_def slice_def slice_to_def slice_from_def slice_bound_def

lemma parse_gbk_four_cds:
  "parse_gbk gbk_init (read_lines four_cds_text) = Inr four_cds_state"
  by (simp add: four_cds_text_def four_cds_state_def read_lines_def gbk_step_def feature_step_def
      translation_step_def gbk_init_def store_entry_def text_defs)

lemma list_index_nth:
  "list_index xs x = Some p \<Longrightarrow> p < length xs \<and> xs ! p = x \<and> x \<notin> set (take p xs)"
proof (induction xs arbitrary: p)
  case Nil
  then show ?case by simp
next
  case (Cons y ys)
  show ?case
  proof (cases "y = x")
    case True
    then show ?thesis using Cons.prems by simp
  next
    case False
    then obtain q where q: "list_index ys x = Some q" "p = Suc q"
      using Cons.prems by auto
    then show ?thesis using Cons.IH [OF q(1)] False by simp
  qed
qed

lemma take_drop_nth: "m \<le> length xs \<Longrightarrow> take (m - k) (drop k xs) = map ((!) xs) [k..<m]"
  by (rule nth_equalityI) auto

text \<open>A slice whose bounds are not negative and whose end is in the list.\<close>

lemma slice_in_range:
  assumes "0 \<le> i" and "0 \<le> j" and "j \<le> int (length xs)"
  shows "slice xs i j = map ((!) xs) [nat i..<nat j]"
proof -
  have j: "slice_bound (length xs) j = nat j"
    using assms by (simp add: slice_bound_def)
  show ?thesis
  proof (cases "nat i \<le> length xs")
    case True
    then have "slice_bound (length xs) i = nat i"
      using assms by (simp add: slice_bound_def)
    then show ?thesis
      using j assms take_drop_nth [of "nat j" xs "nat i"] by (simp add: slice_def)
  next
    case False
    then have "nat j \<le> nat i" using assms by linarith
    then show ?thesis
      using j False assms by (simp add: slice_def slice_bound_def)
  qed
qed

lemma select_loop_last:
  "select_loop s (earlier @ [gene]) n_before n_after w0 = Inr w \<Longrightarrow>
   select_window s gene n_before n_after = Inr w"
  by (induction earlier arbitrary: w0) (auto split: sum.splits)

text \<open>
  Claim C3, on the file of four CDS features: the gene \<^verbatim>\<open>g\<close> is at position 1, two
  entries follow it, and \<^verbatim>\<open>n_after = 3\<close> is requested. No error is raised: the call
  returns and writes all four entries.
\<close>

theorem select_genes_too_many_after_example:
  "fst (select_genes_from_gbk_to_fasta four_cds_fs ''x.gbk'' [''g''] 1 3 None) = Inr ()
   \<and> file_text (snd (select_genes_from_gbk_to_fasta four_cds_fs ''x.gbk'' [''g''] 1 3 None))
        ''fasta_selected_from_gbk/CDS_selected_from_gbk_x.fasta''
      = ''>1..9 gene:a\<newline>\<newline>>20..29 gene:g\<newline>\<newline>>40..49 gene:h\<newline>\<newline>>60..69 gene:h\<newline>\<newline>''"
  by (simp add: four_cds_fs_def four_cds_text_def
      select_genes_from_gbk_to_fasta_def open_read_def file_lines_def file_text_def read_lines_def
      gbk_step_def feature_step_def translation_step_def gbk_init_def store_entry_def text_defs
      select_defs makedirs_def all_writable_def gbk_output_name_def basename_def
      after_last_sep_def endswith_def path_join_def open_write_def fwrite_def)

text \<open>
  Claim C7, amended. Let the requested gene be at position p of the coordinate list. When
  it passes validation, \<open>n_after\<close> is not negative and position p + n_after is in the
  list, the selected window is the entries at positions p - n_before to p + n_after. When
  several genes are requested and the loop returns, its result is the window of the last
  gene.
\<close>

theorem select_window_slice:
  assumes "genes_names_dict s gene = Some gene_coord"
    and "list_index (cds_coord_list s) gene_coord = Some p"
  shows "(select_window s gene n_before n_after = Inr w \<and> 0 \<le> n_after
            \<and> int p + n_after < int (length (cds_coord_list s))
          \<longrightarrow> n_before \<le> int p
              \<and> w = map ((!) (cds_coord_list s))
                        [nat (int p - n_before)..<nat (int p + n_after) + 1])
       \<and> (select_loop s (earlier @ [gene]) n_before n_after w0 = Inr w'
          \<longrightarrow> select_window s gene n_before n_after = Inr w')"
proof (intro conjI impI)
  assume "select_loop s (earlier @ [gene]) n_before n_after w0 = Inr w'"
  then show "select_window s gene n_before n_after = Inr w'"
    by (rule select_loop_last)
next
  assume a: "select_window s gene n_before n_after = Inr w \<and> 0 \<le> n_after
            \<and> int p + n_after < int (length (cds_coord_list s))"
  have p: "p < length (cds_coord_list s)"
    using list_index_nth [OF assms(2)] by simp
  have before: "n_before \<le> int p"
    using a assms p by (auto simp: select_window_def slice_to_def slice_bound_def split: if_splits)
  then show "n_before \<le> int p" .
  have "w = slice (cds_coord_list s) (int p - n_before) (int p + n_after + 1)"
    using a assms by (auto simp: select_window_def split: if_splits)
  also have "\<dots> = map ((!) (cds_coord_list s))
                      [nat (int p - n_before)..<nat (int p + n_after + 1)]"
    using a before by (intro slice_in_range) auto
  also have "nat (int p + n_after + 1) = nat (int p + n_after) + 1"
    using a by linarith
  finally show "w = map ((!) (cds_coord_list s))
                      [nat (int p - n_before)..<nat (int p + n_after) + 1]" .
qed

theorem select_window_slice_witness:
  "select_window four_cds_state ''g'' 1 1 = Inr [''1..9'', ''20..29'', ''40..49'']
   \<and> select_loop four_cds_state [''h'', ''g''] 1 1 [] = Inr [''1..9'', ''20..29'', ''40..49'']
   \<and> map ((!) (cds_coord_list four_cds_state)) [nat (int 1 - 1)..<nat (int 1 + 1) + 1]
       = [''1..9'', ''20..29'', ''40..49'']"
proof -
  have h1: "genes_names_dict four_cds_state ''g'' = Some ''20..29''"
    by (simp add: four_cds_state_def)
  have h2: "list_index (cds_coord_list four_cds_state) ''20..29'' = Some 1"
    by (simp add: four_cds_state_def)
  have w: "select_window four_cds_state ''g'' 1 1 = Inr [''1..9'', ''20..29'', ''40..49'']"
    by (simp add: four_cds_state_def select_defs)
  have l: "select_loop four_cds_state [''h'', ''g''] 1 1 [] = Inr [''1..9'', ''20..29'', ''40..49'']"
    by (simp add: four_cds_state_def select_defs)
  show ?thesis
    using select_window_slice [OF h1 h2, of 1 1 "[''1..9'', ''20..29'', ''40..49'']" "[''h'']" "[]"
            "[''1..9'', ''20..29'', ''40..49'']"] w l
    by (simp add: four_cds_state_def)
qed

text \<open>
  Claim C7 as stated fails on the file of four CDS features, where the gene \<^verbatim>\<open>g\<close> is at
  position 1. With \<^verbatim>\<open>n_before = 1\<close> and \<^verbatim>\<open>n_after = 3\<close> the validation passes and the
  window has the four entries of the list, one fewer than the positions 0 to 4. With
  \<^verbatim>\<open>n_before = 0\<close> and \<^verbatim>\<open>n_after = -3\<close> the validation passes and the end of the slice
  counts from the end of the list: the window has two entries.
\<close>

theorem select_window_slice_counterexample:
  "select_loop (projr (parse_gbk gbk_init (read_lines four_cds_text))) [''g''] 1 3 []
     = Inr [''1..9'', ''20..29'', ''40..49'', ''60..69'']
   \<and> cds_coord_list (projr (parse_gbk gbk_init (read_lines four_cds_text)))
     = [''1..9'', ''20..29'', ''40..49'', ''60..69'']
   \<and> list_index [''1..9'', ''20..29'', ''40..49'', ''60..69''] ''20..29'' = Some 1
   \<and> length [''1..9'', ''20..29'', ''40..49'', ''60..69''] < 1 + 3 + 1
   \<and> select_loop (projr (parse_gbk gbk_init (read_lines four_cds_text))) [''g''] 0 (- 3) []
     = Inr [''20..29'', ''40..49'']"
  unfolding parse_gbk_four_cds by (simp add: four_cds_state_def select_defs)

section \<open>Failures and the output file\<close>

text \<open>The function by stages: each failure with the file system it leaves.\<close>

lemma select_genes_stages:
  "select_genes_from_gbk_to_fasta fs input_gbk genes n_before n_after output_fasta =
     (case files fs input_gbk of
        None \<Rightarrow> (Inl (if input_gbk \<in> dirs fs then IsADirectoryError input_gbk
                       else FileNotFoundError input_gbk), fs)
      | Some content \<Rightarrow>
          (case parse_gbk gbk_init (read_lines content) of
             Inl e \<Rightarrow> (Inl e, fs)
           | Inr s \<Rightarrow>
               (case select_loop s genes n_before n_after [] of
                  Inl e \<Rightarrow> (Inl e, fs)
                | Inr cds_of_interest \<Rightarrow>
                    (case makedirs fs ''fasta_selected_from_gbk'' of
                       (Inl e, fs1) \<Rightarrow> (Inl e, fs1)
                     | (Inr _, fs1) \<Rightarrow>
                         (case gbk_output_name input_gbk output_fasta of
                            Inl e \<Rightarrow> (Inl e, fs1)
                          | Inr out \<Rightarrow>
                              (case open_write fs1 (path_join ''fasta_selected_from_gbk'' out) of
                                 (Inl e, fs2) \<Rightarrow> (Inl e, fs2)
                               | (Inr fasta, fs2) \<Rightarrow> write_cds fs2 fasta s cds_of_interest))))))"
  by (simp add: select_genes_from_gbk_to_fasta_def open_read_def file_lines_def file_text_def
      split: option.splits)

lemma blast_scan_total: "\<exists>s'. blast_scan s lines = Inr s'"
proof (induction lines arbitrary: s)
  case Nil
  then show ?case by simp
next
  case (Cons line lines)
  have "\<exists>s1. blast_step s line = Inr s1"
    by (simp add: blast_step_def item_split_0)
  then show ?case using Cons by auto
qed

lemma blast_output_name_total: "\<exists>out. blast_output_name input_file output_file = Inr out"
  by (cases output_file) (simp_all add: blast_output_name_def item_split_0)

lemma parse_blast_output_failure:
  assumes "parse_blast_output fs input_file output_file = (Inl e, fs')"
  shows "fs' = fs"
proof (cases "files fs input_file")
  case None
  then show ?thesis
    using assms by (simp add: parse_blast_output_def open_read_def split: if_splits)
next
  case (Some content)
  obtain s where s: "blast_scan blast_init (file_lines fs input_file) = Inr s"
    using blast_scan_total by blast
  obtain out where out: "blast_output_name input_file output_file = Inr out"
    using blast_output_name_total by blast
  show ?thesis
  proof (cases "writable fs out")
    case True
    then show ?thesis
      using assms Some s out
      by (simp add: parse_blast_output_def open_read_def open_write_def write_results_write_mode)
  next
    case False
    then show ?thesis
      using assms Some s out
      by (simp add: parse_blast_output_def open_read_def open_write_def)
  qed
qed

text \<open>
  Claim C10, amended. A call of \<open>parse_blast_output\<close> that fails leaves the file system
  as it was. A call of \<open>select_genes_from_gbk_to_fasta\<close> that fails because the input is
  missing (the path holds no file), or in the selection loop (a requested gene that is not in the gene index, or a
  window validation error), fails before the output file is opened and leaves the file
  system as it was.
\<close>

theorem failures_before_output:
  "(parse_blast_output fs input_file output_file = (Inl e, fs') \<longrightarrow> fs' = fs)
   \<and> (files fs input_gbk = None \<longrightarrow>
        select_genes_from_gbk_to_fasta fs input_gbk genes n_before n_after output_fasta
          = (Inl (if input_gbk \<in> dirs fs then IsADirectoryError input_gbk
                  else FileNotFoundError input_gbk), fs))
   \<and> (files fs input_gbk = Some content \<and> parse_gbk gbk_init (read_lines content) = Inr s
        \<and> select_loop s genes n_before n_after [] = Inl e'
      \<longrightarrow> select_genes_from_gbk_to_fasta fs input_gbk genes n_before n_after output_fasta
          = (Inl e', fs))"
  using parse_blast_output_failure [of fs input_file output_file e fs']
  by (auto simp: select_genes_stages)

theorem failures_before_output_witness:
  "parse_blast_output four_cds_fs ''r.txt'' None = (Inl (FileNotFoundError ''r.txt''), four_cds_fs)
   \<and> select_genes_from_gbk_to_fasta four_cds_fs ''y.gbk'' [''g''] 1 1 None
       = (Inl (FileNotFoundError ''y.gbk''), four_cds_fs)
   \<and> select_genes_from_gbk_to_fasta four_cds_fs ''x.gbk'' [''zz''] 1 1 None
       = (Inl (KeyError ''zz''), four_cds_fs)
   \<and> select_genes_from_gbk_to_fasta four_cds_fs ''x.gbk'' [''a''] 1 1 None
       = (Inl (ValueError too_many_before), four_cds_fs)
   \<and> select_genes_from_gbk_to_fasta four_cds_fs ''x.gbk'' [''h''] 1 3 None
       = (Inl (ValueError too_many_after), four_cds_fs)"
proof -
  have blast: "parse_blast_output four_cds_fs ''r.txt'' None
                 = (Inl (FileNotFoundError ''r.txt''), four_cds_fs)"
    by (simp add: parse_blast_output_def open_read_def four_cds_fs_def)
  have missing: "files four_cds_fs ''y.gbk'' = None" "''y.gbk'' \<notin> dirs four_cds_fs"
    by (simp_all add: four_cds_fs_def)
  have there: "files four_cds_fs ''x.gbk'' = Some four_cds_text"
    by (simp add: four_cds_fs_def)
  have gene: "select_loop four_cds_state [''zz''] 1 1 [] = Inl (KeyError ''zz'')"
    by (simp add: four_cds_state_def select_defs)
  have before: "select_loop four_cds_state [''a''] 1 1 [] = Inl (ValueError too_many_before)"
    by (simp add: four_cds_state_def select_defs)
  have after: "select_loop four_cds_state [''h''] 1 3 [] = Inl (ValueError too_many_after)"
    by (simp add: four_cds_state_def select_defs)
  show ?thesis
    using blast
      failures_before_output [of four_cds_fs "''r.txt''" None "FileNotFoundError ''r.txt''"
        four_cds_fs "''y.gbk''" "[''g'']" 1 1 None]
      failures_before_output [of four_cds_fs "''r.txt''" None "FileNotFoundError ''r.txt''"
        four_cds_fs "''x.gbk''" "[''zz'']" 1 1 None four_cds_text four_cds_state "KeyError ''zz''"]
      failures_before_output [of four_cds_fs "''r.txt''" None "FileNotFoundError ''r.txt''"
        four_cds_fs "''x.gbk''" "[''a'']" 1 1 None four_cds_text four_cds_state
        "ValueError too_many_before"]
      failures_before_output [of four_cds_fs "''r.txt''" None "FileNotFoundError ''r.txt''"
        four_cds_fs "''x.gbk''" "[''h'']" 1 3 None four_cds_text four_cds_state
        "ValueError too_many_after"]
      missing there parse_gbk_four_cds gene before after
    by simp
qed

text \<open>
  Claim C10 as stated fails on a file with no \<^verbatim>\<open>ORIGIN\<close> line: the entry of the last CDS
  is never stored, the output file is opened, and the lookup of the coordinate \<^verbatim>\<open>1..9\<close>
  then raises a KeyError. The output file did not exist before the call and is left empty.
\<close>

theorem failure_leaves_empty_output_counterexample:
  "fst (select_genes_from_gbk_to_fasta no_origin_fs ''x.gbk'' [''a''] 0 0 None)
     = Inl (KeyError ''1..9'')
   \<and> files no_origin_fs ''fasta_selected_from_gbk/CDS_selected_from_gbk_x.fasta'' = None
   \<and> files (snd (select_genes_from_gbk_to_fasta no_origin_fs ''x.gbk'' [''a''] 0 0 None))
        ''fasta_selected_from_gbk/CDS_selected_from_gbk_x.fasta'' = Some ''''"
  by (simp add: no_origin_fs_def
      select_genes_from_gbk_to_fasta_def open_read_def file_lines_def file_text_def read_lines_def
      gbk_step_def feature_step_def translation_step_def gbk_init_def store_entry_def text_defs
      select_defs makedirs_def all_writable_def gbk_output_name_def basename_def
      after_last_sep_def endswith_def path_join_def open_write_def fwrite_def)


end
